theory Spec2Isabelle
  imports Complex_Main "HOL-Library.Word"
begin

section \<open>The command parser of cmd.cpp\<close>

text \<open>
  The model follows \<^verbatim>\<open>src/cmd.cpp\<close> on an LP64 platform: \<^verbatim>\<open>size_t\<close> has 64 bits and
  \<^verbatim>\<open>unsigned int\<close> has 32. String positions are natural numbers, \<^verbatim>\<open>std::string::npos\<close>
  is the largest \<^verbatim>\<open>size_t\<close>, and the static member \<^verbatim>\<open>index\<close> is a 32-bit word, so that
  the assignment of a \<^verbatim>\<open>size_t\<close> to it truncates as in the source.
\<close>

subsection \<open>Data\<close>

text \<open>
  Modelled from the spec: the class \<^verbatim>\<open>CmdParam\<close>, a row of the command table, is
  declared in \<^verbatim>\<open>cmd.h\<close>, which is not among the sources. A row has the five fields of
  the specification's command descriptor, in the order of the table in the header comment
  of \<^verbatim>\<open>cmd.cpp\<close>: the id, the name, the help text, the handler and its context. The
  fields \<^verbatim>\<open>cmdname\<close>, \<^verbatim>\<open>fp\<close> and \<^verbatim>\<open>arg\<close> are named as \<^verbatim>\<open>process\<close> reads
  them. The handler \<^verbatim>\<open>fp\<close> and the pointer \<^verbatim>\<open>arg\<close> are opaque.
\<close>

record ('f, 'a) CmdParam =
  cmdid :: nat
  cmdname :: string
  helptext :: string
  fp :: 'f
  arg :: 'a

text \<open>The static members \<^verbatim>\<open>current\<close>, \<^verbatim>\<open>index\<close> and \<^verbatim>\<open>sep\<close> (lines 58 to 60).\<close>

record parser =
  current :: string
  index :: "32 word"
  sep :: string

definition default_sep :: string where
  "default_sep = [CHR '' '', CHR 0x09, CHR 0x0D, CHR 0x0A]"

text \<open>
  What can go wrong: the two exceptions of the standard library that the code can raise,
  and the read of \<^verbatim>\<open>table[i]\<close> beyond the last row of a table that has no row with an
  empty name (undefined behaviour in the source).
\<close>

datatype failure = out_of_range | invalid_argument | table_overrun

text \<open>
  What \<^verbatim>\<open>process\<close> does to the outside: a call of \<^verbatim>\<open>printfunc\<close>, of
  \<^verbatim>\<open>notfoundfunc\<close>, or of a row's handler with its three arguments.
\<close>

datatype ('f, 'a) call =
    Print string
  | NotFound string string
  | Handler 'f nat 'a string

subsection \<open>The operations of std::string that the code uses\<close>

definition npos :: nat where
  "npos = 2 ^ 64 - 1"

primrec first_pos :: "(char \<Rightarrow> bool) \<Rightarrow> string \<Rightarrow> nat option" where
  "first_pos P [] = None"
| "first_pos P (c # cs) = (if P c then Some 0 else map_option Suc (first_pos P cs))"

definition find_first_not_of :: "string \<Rightarrow> string \<Rightarrow> nat \<Rightarrow> nat" where
  "find_first_not_of s chars pos =
     (case first_pos (\<lambda>c. c \<notin> set chars) (drop pos s) of
        None \<Rightarrow> npos
      | Some k \<Rightarrow> pos + k)"

definition find_first_of :: "string \<Rightarrow> string \<Rightarrow> nat \<Rightarrow> nat" where
  "find_first_of s chars pos =
     (case first_pos (\<lambda>c. c \<in> set chars) (drop pos s) of
        None \<Rightarrow> npos
      | Some k \<Rightarrow> pos + k)"

text \<open>\<^verbatim>\<open>s.substr(pos, count)\<close> raises when \<^verbatim>\<open>pos > s.size()\<close>.\<close>

definition substr :: "string \<Rightarrow> nat \<Rightarrow> nat \<Rightarrow> failure + string" where
  "substr s pos count =
     (if length s < pos then Inl out_of_range else Inr (take count (drop pos s)))"

subsection \<open>gettoken\<close>

text \<open>
  Every operation returns the parser state it leaves, the value it has written to
  \<^verbatim>\<open>*valid\<close>, and its result or the exception that ended it. Line 110 stores a
  \<^verbatim>\<open>size_t\<close> in the 32-bit \<^verbatim>\<open>index\<close>; line 111 compares the widened \<^verbatim>\<open>index\<close> with
  \<^verbatim>\<open>npos\<close> and subtracts in \<^verbatim>\<open>size_t\<close>.
\<close>

definition gettoken :: "parser \<Rightarrow> parser \<times> bool \<times> (failure + string)" where
  "gettoken st =
     (let n1 = find_first_not_of (current st) (sep st) (unat (index st)) in
      if n1 = npos then (st, False, Inr [])
      else
        let idx = (of_nat (find_first_of (current st) (sep st) n1) :: 32 word);
            st' = st\<lparr>index := idx\<rparr>
        in (st', True,
            substr (current st) n1
              (if unat idx \<noteq> npos then (unat idx + 2 ^ 64 - n1) mod 2 ^ 64 else npos)))"

subsection \<open>The integer conversions of the standard library\<close>

text \<open>
  \<^verbatim>\<open>std::stoi(token, NULL, 0)\<close> and \<^verbatim>\<open>std::stoul(token, NULL, 0)\<close> are not code of
  \<^verbatim>\<open>cmd.cpp\<close>; they are modelled after the C and C++ standards. Both read, as
  \<^verbatim>\<open>strtol\<close> does with base 0: white space, an optional sign, then a hexadecimal number
  after \<^verbatim>\<open>0x\<close> or \<^verbatim>\<open>0X\<close>, an octal number after \<^verbatim>\<open>0\<close>, a decimal number otherwise,
  up to the first character that is not a digit of the base. With no digit they raise
  \<^verbatim>\<open>std::invalid_argument\<close>, with a value out of range \<^verbatim>\<open>std::out_of_range\<close>.
\<close>

definition isspace :: "char \<Rightarrow> bool" where
  "isspace c = (c \<in> set [CHR '' '', CHR 0x09, CHR 0x0A, CHR 0x0B, CHR 0x0C, CHR 0x0D])"

definition digit_val :: "char \<Rightarrow> nat option" where
  "digit_val c =
     (let n = (of_char c :: nat) in
      if 48 \<le> n \<and> n \<le> 57 then Some (n - 48)
      else if 97 \<le> n \<and> n \<le> 122 then Some (n - 87)
      else if 65 \<le> n \<and> n \<le> 90 then Some (n - 55)
      else None)"

definition is_digit :: "nat \<Rightarrow> char \<Rightarrow> bool" where
  "is_digit base c = (case digit_val c of None \<Rightarrow> False | Some d \<Rightarrow> d < base)"

definition digits_value :: "nat \<Rightarrow> string \<Rightarrow> nat" where
  "digits_value base ds =
     foldl (\<lambda>a c. a * base + (case digit_val c of None \<Rightarrow> 0 | Some d \<Rightarrow> d)) 0 ds"

text \<open>The sign and the magnitude that are read, or \<open>None\<close> when there is no digit.\<close>

definition strip_sign :: "string \<Rightarrow> bool \<times> string" where
  "strip_sign s =
     (case s of
        [] \<Rightarrow> (False, [])
      | c # cs \<Rightarrow>
          if c = CHR ''-'' then (True, cs)
          else if c = CHR ''+'' then (False, cs)
          else (False, s))"

definition has_hex_prefix :: "string \<Rightarrow> bool" where
  "has_hex_prefix s =
     (case s of
        c # x # h # _ \<Rightarrow> c = CHR ''0'' \<and> (x = CHR ''x'' \<or> x = CHR ''X'') \<and> is_digit 16 h
      | _ \<Rightarrow> False)"

definition parse_unsigned :: "string \<Rightarrow> nat option" where
  "parse_unsigned s =
     (let hex = has_hex_prefix s;
          base = (if hex then 16 else if take 1 s = ''0'' then 8 else 10);
          ds = takeWhile (is_digit base) (if hex then drop 2 s else s)
      in if ds = [] then None else Some (digits_value base ds))"

definition parse_integer :: "string \<Rightarrow> (bool \<times> nat) option" where
  "parse_integer s =
     (case strip_sign (dropWhile isspace s) of
        (neg, s2) \<Rightarrow> map_option (Pair neg) (parse_unsigned s2))"

definition stoi :: "string \<Rightarrow> failure + int" where
  "stoi s =
     (case parse_integer s of
        None \<Rightarrow> Inl invalid_argument
      | Some (neg, m) \<Rightarrow>
          let v = (if neg then - int m else int m)
          in if v < - (2 ^ 31) \<or> 2 ^ 31 - 1 < v then Inl out_of_range else Inr v)"

text \<open>
  \<^verbatim>\<open>stoul\<close> returns an \<^verbatim>\<open>unsigned long\<close> of 64 bits; a negative number is negated in
  that type.
\<close>

definition stoul :: "string \<Rightarrow> failure + nat" where
  "stoul s =
     (case parse_integer s of
        None \<Rightarrow> Inl invalid_argument
      | Some (neg, m) \<Rightarrow>
          if 2 ^ 64 - 1 < m then Inl out_of_range
          else Inr (if neg then (2 ^ 64 - m) mod 2 ^ 64 else m))"

subsection \<open>The floating-point conversion of the standard library\<close>

text \<open>
  \<^verbatim>\<open>std::stof(token)\<close> is not code of \<^verbatim>\<open>cmd.cpp\<close> either; it is modelled after
  \<^verbatim>\<open>strtof\<close> of the C standard and, where the standard leaves the choice to the
  implementation (the error on underflow), after glibc on x86-64. A \<^verbatim>\<open>float\<close> is an
  IEEE binary32 value: a finite one is a sign, a significand below \<open>2 ^ 24\<close> and an exponent
  from \<open>- 149\<close> to \<open>104\<close>, and stands for significand times two to the exponent.
\<close>

datatype float = Finite bool nat int | Infinite bool | NaN bool

instantiation float :: zero
begin
definition zero_float :: float where
  "zero_float = Finite False 0 (- 149)"
instance ..
end

definition float_value :: "float \<Rightarrow> rat option" where
  "float_value x =
     (case x of
        Finite neg m u \<Rightarrow>
          Some ((if neg then - 1 else 1) * of_nat m *
                (if 0 \<le> u then 2 ^ nat u else 1 / 2 ^ nat (- u)))
      | _ \<Rightarrow> None)"

text \<open>
  The subject sequence: \<^verbatim>\<open>inf\<close> or \<^verbatim>\<open>nan\<close> in any case; or a hexadecimal number after
  \<^verbatim>\<open>0x\<close> with an optional point and an optional binary exponent after \<^verbatim>\<open>p\<close>; or a
  decimal number with an optional point and an optional exponent after \<^verbatim>\<open>e\<close>. A number
  needs at least one digit, an exponent needs at least one digit to count. The exact value is
  kept as a fraction of two natural numbers.
\<close>

definition to_lower :: "char \<Rightarrow> char" where
  "to_lower c =
     (let n = (of_char c :: nat) in if 65 \<le> n \<and> n \<le> 90 then char_of (n + 32) else c)"

definition has_prefix_ci :: "string \<Rightarrow> string \<Rightarrow> bool" where
  "has_prefix_ci p s = (map to_lower (take (length p) s) = p)"

definition split_mantissa :: "nat \<Rightarrow> string \<Rightarrow> string \<times> string \<times> string" where
  "split_mantissa base s =
     (let ip = takeWhile (is_digit base) s; r = dropWhile (is_digit base) s in
      case r of
        [] \<Rightarrow> (ip, [], [])
      | c # cs \<Rightarrow>
          if c = CHR ''.''
          then (ip, takeWhile (is_digit base) cs, dropWhile (is_digit base) cs)
          else (ip, [], r))"

definition exponent_part :: "char \<Rightarrow> string \<Rightarrow> int" where
  "exponent_part marker r =
     (case r of
        [] \<Rightarrow> 0
      | c # cs \<Rightarrow>
          if to_lower c = marker then
            (case strip_sign cs of
               (neg, ds) \<Rightarrow>
                 let ed = takeWhile (is_digit 10) ds in
                 if ed = [] then 0
                 else if neg then - int (digits_value 10 ed)
                 else int (digits_value 10 ed))
          else 0)"

definition scaled :: "nat \<Rightarrow> nat \<Rightarrow> int \<Rightarrow> nat \<times> nat" where
  "scaled m b k = (if 0 \<le> k then (m * b ^ nat k, 1) else (m, b ^ nat (- k)))"

datatype subject = Rational nat nat | Inf_subject | NaN_subject

definition parse_float :: "string \<Rightarrow> subject option" where
  "parse_float s =
     (if has_prefix_ci ''inf'' s then Some Inf_subject
      else if has_prefix_ci ''nan'' s then Some NaN_subject
      else
        case split_mantissa 16 (drop 2 s) of
          (hip, hfp, hr) \<Rightarrow>
            if has_prefix_ci ''0x'' s \<and> hip @ hfp \<noteq> [] then
              (case scaled (digits_value 16 (hip @ hfp)) 2
                      (exponent_part CHR ''p'' hr - 4 * int (length hfp)) of
                 (n, d) \<Rightarrow> Some (Rational n d))
            else
              (case split_mantissa 10 s of
                 (dip, dfp, dr) \<Rightarrow>
                   if dip @ dfp = [] then None
                   else
                     (case scaled (digits_value 10 (dip @ dfp)) 10
                             (exponent_part CHR ''e'' dr - int (length dfp)) of
                        (n, d) \<Rightarrow> Some (Rational n d))))"

text \<open>
  Rounding to the nearest \<^verbatim>\<open>float\<close>, ties to the even significand. \<open>bits n\<close> is the
  number of binary digits of \<open>n\<close>, \<open>ilog2 n d\<close> the exponent \<open>e\<close> with
  \<open>2 ^ e \<le> n / d < 2 ^ (e + 1)\<close>, and \<open>round_even n d u\<close> the integer nearest to
  \<open>n / (d * 2 ^ u)\<close> with the information whether it is exact. A value beyond the largest
  \<^verbatim>\<open>float\<close> sets \<^verbatim>\<open>ERANGE\<close>, and so does a value that is tiny (below the least normal
  \<^verbatim>\<open>float\<close> after rounding to 24 bits) and not exact.
\<close>

function bits :: "nat \<Rightarrow> nat" where
  "bits n = (if n = 0 then 0 else Suc (bits (n div 2)))"
  by pat_completeness auto
termination
  by (relation "measure id") auto

declare bits.simps [simp del]

definition ge_pow2 :: "nat \<Rightarrow> nat \<Rightarrow> int \<Rightarrow> bool" where
  "ge_pow2 n d k = (if 0 \<le> k then d * 2 ^ nat k \<le> n else d \<le> n * 2 ^ nat (- k))"

definition ilog2 :: "nat \<Rightarrow> nat \<Rightarrow> int" where
  "ilog2 n d = (let k = int (bits n) - int (bits d) in if ge_pow2 n d k then k else k - 1)"

definition round_even :: "nat \<Rightarrow> nat \<Rightarrow> int \<Rightarrow> nat \<times> bool" where
  "round_even n d u =
     (let N = (if 0 \<le> u then n else n * 2 ^ nat (- u));
          D = (if 0 \<le> u then d * 2 ^ nat u else d);
          q = N div D;
          r = N mod D;
          m = (if 2 * r < D then q else if D < 2 * r then q + 1
               else if even q then q else q + 1)
      in (m, r = 0))"

definition to_float :: "bool \<Rightarrow> nat \<Rightarrow> nat \<Rightarrow> failure + float" where
  "to_float neg n d =
     (if n = 0 then Inr (Finite neg 0 (- 149))
      else
        let e = ilog2 n d;
            m24 = fst (round_even n d (e - 23));
            tiny = (e < - 126 \<and> \<not> (e = - 127 \<and> m24 = 2 ^ 24));
            u = max (e - 23) (- 149);
            m = fst (round_even n d u);
            exact = snd (round_even n d u);
            m' = (if m = 2 ^ 24 then 2 ^ 23 else m);
            u' = (if m = 2 ^ 24 then u + 1 else u)
        in if 104 < u' then Inl out_of_range
           else if tiny \<and> \<not> exact then Inl out_of_range
           else Inr (Finite neg m' u'))"

text \<open>\<^verbatim>\<open>std::stof\<close> raises when nothing is converted and when \<^verbatim>\<open>ERANGE\<close> is set.\<close>

definition std_stof :: "string \<Rightarrow> failure + float" where
  "std_stof s =
     (case strip_sign (dropWhile isspace s) of
        (neg, s2) \<Rightarrow>
          (case parse_float s2 of
             None \<Rightarrow> Inl invalid_argument
           | Some Inf_subject \<Rightarrow> Inr (Infinite neg)
           | Some NaN_subject \<Rightarrow> Inr (NaN neg)
           | Some (Rational n d) \<Rightarrow> to_float neg n d))"

subsection \<open>getfloat, getint, getuint\<close>

text \<open>
  Each writes \<^verbatim>\<open>*valid\<close> before it converts, so the flag is set also when the
  conversion raises. The conversion that \<open>getfloat\<close> calls is its first argument:
  what holds for every conversion holds for \<^verbatim>\<open>std::stof\<close>, and \<open>getfloat std_stof\<close> is
  the function of the source. \<open>getuint\<close> assigns the \<^verbatim>\<open>unsigned long\<close> to an
  \<^verbatim>\<open>unsigned int\<close>.
\<close>

definition getfloat ::
  "(string \<Rightarrow> failure + 'r) \<Rightarrow> parser \<Rightarrow> parser \<times> bool \<times> (failure + 'r::zero)"
where
  "getfloat stof st =
     (case gettoken st of
        (st', tvalid, Inl e) \<Rightarrow> (st', tvalid, Inl e)
      | (st', tvalid, Inr token) \<Rightarrow>
          if tvalid then (st', tvalid, stof token) else (st', tvalid, Inr 0))"

definition getint :: "parser \<Rightarrow> parser \<times> bool \<times> (failure + int)" where
  "getint st =
     (case gettoken st of
        (st', tvalid, Inl e) \<Rightarrow> (st', tvalid, Inl e)
      | (st', tvalid, Inr token) \<Rightarrow>
          if tvalid then (st', tvalid, stoi token) else (st', tvalid, Inr 0))"

definition getuint :: "parser \<Rightarrow> parser \<times> bool \<times> (failure + nat)" where
  "getuint st =
     (case gettoken st of
        (st', tvalid, Inl e) \<Rightarrow> (st', tvalid, Inl e)
      | (st', tvalid, Inr token) \<Rightarrow>
          if tvalid then
            (st', tvalid,
             case stoul token of Inl e \<Rightarrow> Inl e | Inr v \<Rightarrow> Inr (v mod 2 ^ 32))
          else (st', tvalid, Inr 0))"

subsection \<open>process\<close>

text \<open>
  The loop of lines 132 to 141 over the rows from \<^verbatim>\<open>table[i]\<close> on: it stops at the first
  row with an empty name, and at the first row whose name is the command.
\<close>

datatype ('f, 'a) scan_result =
    Match nat "('f, 'a) CmdParam"
  | Exhausted
  | Overrun

fun scan :: "('f, 'a) CmdParam list \<Rightarrow> nat \<Rightarrow> string \<Rightarrow> ('f, 'a) scan_result" where
  "scan [] i ccmd = Overrun"
| "scan (e # es) i ccmd =
     (if cmdname e = [] then Exhausted
      else if ccmd = cmdname e then Match i e
      else scan es (Suc i) ccmd)"

text \<open>
  \<^verbatim>\<open>process\<close> returns the parser state at the moment of its last call and the calls it
  has made, or the failure that ended it. The handler receives the loop counter
  \<^verbatim>\<open>i\<close>, the row's \<^verbatim>\<open>arg\<close> and \<^verbatim>\<open>current.substr(index)\<close> (line 138).
\<close>

definition process ::
  "parser \<Rightarrow> ('f, 'a) CmdParam list \<Rightarrow> string \<Rightarrow> parser \<times> (failure + ('f, 'a) call list)"
where
  "process st table cmdline =
     (case gettoken (st\<lparr>current := cmdline, index := 0\<rparr>) of
        (st1, valid, Inl e) \<Rightarrow> (st1, Inl e)
      | (st1, valid, Inr ccmd) \<Rightarrow>
          if \<not> valid then (st1, Inr [Print ''Unknown error:'', Print cmdline])
          else
            (case scan table 0 ccmd of
               Match i e \<Rightarrow>
                 (let st2 = st1\<lparr>current := cmdline\<rparr> in
                  case substr (current st2) (unat (index st2)) npos of
                    Inl x \<Rightarrow> (st2, Inl x)
                  | Inr remainder \<Rightarrow> (st2, Inr [Handler (fp e) i (arg e) remainder]))
             | Exhausted \<Rightarrow> (st1, Inr [NotFound cmdline ccmd])
             | Overrun \<Rightarrow> (st1, Inl table_overrun)))"

subsection \<open>Notions of the specification\<close>

text \<open>
  The specification speaks of the first token of a line (a maximal run of characters
  that are not separators) and of the line after that token. These definitions follow its
  words; they are what the code is compared with.
\<close>

definition skip_seps :: "string \<Rightarrow> string \<Rightarrow> string" where
  "skip_seps seps s = dropWhile (\<lambda>c. c \<in> set seps) s"

definition first_token :: "string \<Rightarrow> string \<Rightarrow> string" where
  "first_token seps s = takeWhile (\<lambda>c. c \<notin> set seps) (skip_seps seps s)"

definition after_token :: "string \<Rightarrow> string \<Rightarrow> string" where
  "after_token seps s = dropWhile (\<lambda>c. c \<notin> set seps) (skip_seps seps s)"

text \<open>The part of the current line from the cursor on.\<close>

definition unread :: "parser \<Rightarrow> string" where
  "unread st = drop (unat (index st)) (current st)"

text \<open>A table is terminated when it has a row with an empty name.\<close>

definition terminated :: "('f, 'a) CmdParam list \<Rightarrow> bool" where
  "terminated table = list_ex (\<lambda>e. cmdname e = []) table"

text \<open>
  The parser state that \<open>process\<close> leaves once it has read the command word of a new
  line: the cursor is at the separator that ends the word, or holds the truncated
  \<^verbatim>\<open>npos\<close> when the word ends the line (\<open>gettoken_start\<close> below).
\<close>

definition after_state :: "parser \<Rightarrow> string \<Rightarrow> parser" where
  "after_state st cmdline =
     st\<lparr>current := cmdline,
        index := (if after_token (sep st) cmdline = [] then - 1
                  else of_nat (length cmdline - length (after_token (sep st) cmdline)))\<rparr>"

subsection \<open>The textual rendering of numbers\<close>






subsection \<open>The invariant of the cursor\<close>

text \<open>
  The cursor is within the line, or it holds the truncated \<^verbatim>\<open>npos\<close> that line 110
  stores when a token runs to the end of the line. An operation advances the parser when
  it keeps the line and the separators, does not move the cursor back and keeps the
  invariant.
\<close>

definition cursor_ok :: "parser \<Rightarrow> bool" where
  "cursor_ok st = (unat (index st) \<le> length (current st) \<or> index st = - 1)"

definition advances :: "parser \<Rightarrow> parser \<Rightarrow> bool" where
  "advances st st' =
     (current st' = current st \<and> sep st' = sep st \<and> index st \<le> index st' \<and>
      (cursor_ok st \<longrightarrow> cursor_ok st'))"

subsection \<open>Example data\<close>

text \<open>
  The static members as they are initialised, and the first and the fourth row of the
  demo table, each with the closing row. A handler is named by a string, a pointer is a
  number, \<open>0\<close> for \<^verbatim>\<open>NULL\<close>.
\<close>

definition initial :: parser where
  "initial = \<lparr>current = [], index = 0, sep = default_sep\<rparr>"

definition help_table :: "(string, nat) CmdParam list" where
  "help_table =
     [\<lparr>cmdid = 1, cmdname = ''help'', helptext = ''Get help'', fp = ''help'', arg = 0\<rparr>,
      \<lparr>cmdid = 0, cmdname = [], helptext = [], fp = [], arg = 0\<rparr>]"

definition value_table :: "(string, nat) CmdParam list" where
  "value_table =
     [\<lparr>cmdid = 4, cmdname = ''A'', helptext = ''View/set valueA'', fp = ''cmd_val'', arg = 1\<rparr>,
      \<lparr>cmdid = 0, cmdname = [], helptext = [], fp = [], arg = 0\<rparr>]"

text \<open>The same table with a row after the closing row.\<close>

definition late_table :: "(string, nat) CmdParam list" where
  "late_table =
     [\<lparr>cmdid = 1, cmdname = ''help'', helptext = ''Get help'', fp = ''help'', arg = 0\<rparr>,
      \<lparr>cmdid = 0, cmdname = [], helptext = [], fp = [], arg = 0\<rparr>,
      \<lparr>cmdid = 7, cmdname = ''late'', helptext = ''After the end'', fp = ''late'', arg = 0\<rparr>]"

text \<open>
  Two runs of \<open>2 ^ 32\<close> letters and of \<open>2 ^ 32 - 1\<close> blanks, for lines that are longer than
  an \<^verbatim>\<open>unsigned int\<close> can count.
\<close>

definition long_word :: string where
  "long_word = replicate (2 ^ 32) CHR ''a''"

definition long_blank :: string where
  "long_blank = replicate (2 ^ 32 - 1) CHR '' ''"


lemmas stof_eval =
  std_stof_def parse_float_def to_float_def round_even_def ilog2_def ge_pow2_def bits.simps
  scaled_def exponent_part_def split_mantissa_def has_prefix_ci_def to_lower_def
  strip_sign_def isspace_def is_digit_def digit_val_def digits_value_def Let_def

lemmas eval_defs =
  process_def gettoken_def find_first_not_of_def find_first_of_def substr_def npos_def
  default_sep_def initial_def help_table_def value_table_def late_table_def

section \<open>Properties of gettoken\<close>

lemma first_pos_None: "(first_pos P xs = None) = (\<forall>x\<in>set xs. \<not> P x)"
  by (induction xs) auto

lemma first_pos_Some:
  "\<exists>x\<in>set xs. P x \<Longrightarrow> first_pos P xs = Some (length (takeWhile (\<lambda>x. \<not> P x) xs))"
  by (induction xs) auto

lemma npos_index: "(of_nat npos :: 32 word) = - 1"
  by (simp add: npos_def)

lemma first_token_Nil: "(first_token seps s = []) = (set s \<subseteq> set seps)"
  by (induction s) (auto simp: first_token_def skip_seps_def)

lemma gettoken_blank:
  assumes "first_token (sep st) (unread st) = []"
  shows "gettoken st = (st, False, Inr [])"
proof -
  have "\<forall>c\<in>set (drop (unat (index st)) (current st)). \<not> c \<notin> set (sep st)"
    using assms by (auto simp: first_token_Nil unread_def)
  then have "first_pos (\<lambda>c. c \<notin> set (sep st)) (drop (unat (index st)) (current st)) = None"
    by (simp only: first_pos_None)
  then show ?thesis
    by (simp add: gettoken_def find_first_not_of_def)
qed

text \<open>Subtraction in \<^verbatim>\<open>size_t\<close> does not wrap when the result is not negative.\<close>

lemma size_t_sub:
  assumes "n \<le> a" and "a < 2 ^ 64"
  shows "(a + 2 ^ 64 - n) mod 2 ^ 64 = a - (n::nat)"
proof -
  have "a + 2 ^ 64 - n = (a - n) + 2 ^ 64" using assms by simp
  then show ?thesis using assms by (simp del: add_diff_assoc2)
qed

text \<open>
  On a line of fewer than \<open>2 ^ 32\<close> characters \<open>gettoken\<close> returns the first token of the
  unread part. The cursor is left at the separator that ends the token, or holds the
  truncated \<^verbatim>\<open>npos\<close> when the token runs to the end of the line.
\<close>

lemma gettoken_token:
  assumes len: "length (current st) < 2 ^ 32"
    and tok: "first_token (sep st) (unread st) \<noteq> []"
  shows "gettoken st =
     (st\<lparr>index := (if after_token (sep st) (unread st) = [] then - 1
                    else of_nat (length (current st) - length (after_token (sep st) (unread st))))\<rparr>,
      True, Inr (first_token (sep st) (unread st)))"
proof -
  define s where "s = current st"
  define i where "i = unat (index st)"
  define P where "P = (\<lambda>c. c \<in> set (sep st))"
  define r where "r = drop i s"
  define body where "body = dropWhile P r"
  define t where "t = takeWhile (\<lambda>c. \<not> P c) body"
  define a where "a = dropWhile (\<lambda>c. \<not> P c) body"
  define n1 where "n1 = i + length (takeWhile P r)"
  have ft: "first_token (sep st) (unread st) = t" and at: "after_token (sep st) (unread st) = a"
    by (simp_all add: first_token_def after_token_def skip_seps_def unread_def t_def a_def
        body_def r_def P_def i_def s_def)
  have r: "r = takeWhile P r @ t @ a"
    by (simp add: t_def a_def body_def)
  from tok ft have "t \<noteq> []" by simp
  then have "body \<noteq> []" by (auto simp: t_def)
  then have ex: "\<exists>c\<in>set r. \<not> P c"
    by (auto simp: body_def)
  then have fp1: "first_pos (\<lambda>c. c \<notin> set (sep st)) r = Some (length (takeWhile P r))"
    using first_pos_Some [of r "\<lambda>c. c \<notin> set (sep st)"] by (simp add: P_def)
  have "r \<noteq> []" using ex by auto
  then have ilt: "i < length s" by (simp add: r_def)
  have lenr: "length r = length s - i" by (simp add: r_def)
  have lens: "length s = i + length (takeWhile P r) + length t + length a"
    using arg_cong [OF r, of length] lenr ilt by simp
  have n1: "find_first_not_of s (sep st) i = n1"
    using fp1 by (simp add: find_first_not_of_def n1_def r_def)
  have n1lt: "n1 < 2 ^ 32" using lens len \<open>t \<noteq> []\<close> by (simp add: n1_def s_def)
  then have n1npos: "n1 \<noteq> npos" by (simp add: npos_def)
  have n1le: "\<not> length s < n1" using lens by (simp add: n1_def)
  have dn1: "drop n1 s = body"
  proof -
    have "drop n1 s = drop (length (takeWhile P r)) r"
      by (simp add: n1_def r_def add.commute)
    then show ?thesis by (simp add: body_def dropWhile_eq_drop)
  qed
  have tk: "take (length t) body = t"
    unfolding t_def by (rule takeWhile_eq_take [symmetric])
  show ?thesis
  proof (cases "a = []")
    case True
    then have "\<forall>c\<in>set body. \<not> P c" by (simp add: a_def)
    then have "first_pos (\<lambda>c. c \<in> set (sep st)) body = None"
      by (simp add: first_pos_None P_def)
    then have f2: "find_first_of s (sep st) n1 = npos"
      by (simp add: find_first_of_def dn1)
    have "t @ a = body" by (simp add: t_def a_def)
    then have bt: "body = t" using True by simp
    have "length body \<le> 4294967295 - n1" using lens len True bt
      by (simp add: n1_def s_def)
    moreover have "(4294967295 + 2 ^ 64 - n1) mod 2 ^ 64 = 4294967295 - n1"
      using n1lt by (intro size_t_sub) simp_all
    ultimately have "take ((4294967295 + 2 ^ 64 - n1) mod 2 ^ 64) body = body"
      by simp
    then show ?thesis using True n1 n1npos n1le f2 dn1 bt
      by (simp add: gettoken_def Let_def s_def [symmetric] i_def [symmetric] npos_index
          substr_def ft at npos_def)
  next
    case False
    then have "\<exists>c\<in>set body. P c" by (auto simp: a_def)
    then have fp2: "first_pos (\<lambda>c. c \<in> set (sep st)) body = Some (length t)"
      using first_pos_Some [of body "\<lambda>c. c \<in> set (sep st)"] by (simp add: P_def t_def)
    define p where "p = n1 + length t"
    from fp2 have f2: "find_first_of s (sep st) n1 = p"
      by (simp add: find_first_of_def dn1 p_def)
    have e: "length s - length a = p" using lens by (simp add: n1_def p_def)
    have lt: "p < 2 ^ 32" using lens len by (simp add: n1_def s_def p_def)
    then have u: "unat (of_nat p :: 32 word) = p"
      by (simp add: unat_of_nat)
    have "(p + 2 ^ 64 - n1) mod 2 ^ 64 = p - n1"
      using lt by (intro size_t_sub) (simp_all add: p_def)
    then have cnt: "(p + 2 ^ 64 - n1) mod 2 ^ 64 = length t"
      by (simp add: p_def)
    have pn: "p \<noteq> npos" using lt by (simp add: npos_def)
    show ?thesis using False n1 n1npos n1le f2 dn1 tk u cnt pn
      by (simp add: gettoken_def Let_def s_def [symmetric] i_def [symmetric]
          substr_def ft at e)
  qed
qed


lemma unread_start: "unread (st\<lparr>current := cmdline, index := 0\<rparr>) = cmdline"
  by (simp add: unread_def)

lemma gettoken_start:
  assumes "length cmdline < 2 ^ 32" and "first_token (sep st) cmdline \<noteq> []"
  shows "gettoken (st\<lparr>current := cmdline, index := 0\<rparr>) =
     (after_state st cmdline, True, Inr (first_token (sep st) cmdline))"
  using gettoken_token [of "st\<lparr>current := cmdline, index := 0\<rparr>"] assms
  by (simp add: unread_start after_state_def)

lemma after_token_drop:
  "drop (length s - length (after_token seps s)) s = after_token seps s"
proof -
  have "s = (takeWhile (\<lambda>c. c \<in> set seps) s @ first_token seps s) @ after_token seps s"
    by (simp add: first_token_def after_token_def skip_seps_def)
  then show ?thesis
    by (metis append_eq_conv_conj length_append add_diff_cancel_right')
qed

lemma process_token:
  assumes "length cmdline < 2 ^ 32" and "first_token (sep st) cmdline \<noteq> []"
  shows "process st table cmdline =
     (case scan table 0 (first_token (sep st) cmdline) of
        Match i e \<Rightarrow>
          (case substr cmdline (unat (index (after_state st cmdline))) npos of
             Inl x \<Rightarrow> (after_state st cmdline, Inl x)
           | Inr r \<Rightarrow> (after_state st cmdline, Inr [Handler (fp e) i (arg e) r]))
      | Exhausted \<Rightarrow> (after_state st cmdline, Inr [NotFound cmdline (first_token (sep st) cmdline)])
      | Overrun \<Rightarrow> (after_state st cmdline, Inl table_overrun))"
proof -
  have c: "(after_state st cmdline)\<lparr>current := cmdline\<rparr> = after_state st cmdline"
    "current (after_state st cmdline) = cmdline"
    by (simp_all add: after_state_def)
  show ?thesis
    by (simp add: process_def gettoken_start [OF assms] c Let_def
        split: scan_result.split)
qed

lemma substr_rest:
  assumes "length cmdline < 2 ^ 32" and "after_token (sep st) cmdline \<noteq> []"
  shows "substr cmdline (unat (index (after_state st cmdline))) npos =
     Inr (after_token (sep st) cmdline)"
proof -
  define p where "p = length cmdline - length (after_token (sep st) cmdline)"
  have "p < 2 ^ 32" using assms by (simp add: p_def)
  then have u: "unat (of_nat p :: 32 word) = p" by (simp add: unat_of_nat)
  have d: "drop p cmdline = after_token (sep st) cmdline"
    unfolding p_def by (rule after_token_drop)
  have "length (after_token (sep st) cmdline) \<le> length cmdline"
    using arg_cong [OF d, of length] by simp
  then have "length (after_token (sep st) cmdline) \<le> npos"
    using assms by (simp add: npos_def)
  moreover have "\<not> length cmdline < p" by (simp add: p_def)
  ultimately show ?thesis using assms u d
    by (simp add: substr_def after_state_def flip: p_def)
qed

lemma unat_max32: "unat (- 1 :: 32 word) = 4294967295"
  by (simp add: unsigned_minus_1_eq_mask mask_eq_exp_minus_1)


lemma substr_end:
  assumes "length cmdline < 2 ^ 32 - 1" and "after_token (sep st) cmdline = []"
  shows "substr cmdline (unat (index (after_state st cmdline))) npos = Inl out_of_range"
  using assms by (simp add: substr_def after_state_def unat_max32)

section \<open>Properties of the table scan\<close>

lemma scan_Exhausted:
  "terminated table \<Longrightarrow> \<forall>e\<in>set table. cmdname e \<noteq> ccmd \<Longrightarrow> scan table i ccmd = Exhausted"
  by (induction table arbitrary: i) (auto simp: terminated_def)

lemma scan_Match:
  "scan table k ccmd = Match i e \<Longrightarrow>
     k \<le> i \<and> i - k < length table \<and> e = table ! (i - k) \<and> cmdname e = ccmd \<and>
     (\<forall>j\<le>i - k. cmdname (table ! j) \<noteq> []) \<and> (\<forall>j<i - k. cmdname (table ! j) \<noteq> ccmd)"
proof (induction table arbitrary: k)
  case Nil
  then show ?case by simp
next
  case (Cons x xs)
  show ?case
  proof (cases "cmdname x = [] \<or> ccmd = cmdname x")
    case True
    with Cons.prems show ?thesis by (auto split: if_splits)
  next
    case False
    with Cons.prems have m: "scan xs (Suc k) ccmd = Match i e" by simp
    note ih = Cons.IH [OF m]
    from ih have ki: "Suc k \<le> i" by simp
    then have eq: "i - k = Suc (i - Suc k)" by simp
    show ?thesis using ih False ki unfolding eq
      by (auto simp: nth_Cons less_Suc_eq_0_disj split: nat.splits)
  qed
qed

lemma scan_first:
  "i < length table \<Longrightarrow> cmdname (table ! i) = ccmd \<Longrightarrow> ccmd \<noteq> [] \<Longrightarrow>
   \<forall>j<i. cmdname (table ! j) \<noteq> [] \<and> cmdname (table ! j) \<noteq> ccmd \<Longrightarrow>
   scan table k ccmd = Match (k + i) (table ! i)"
proof (induction table arbitrary: i k)
  case Nil
  then show ?case by simp
next
  case (Cons x xs)
  show ?case
  proof (cases i)
    case 0
    with Cons.prems show ?thesis by auto
  next
    case (Suc n)
    with Cons.prems have "cmdname x \<noteq> []" "cmdname x \<noteq> ccmd" by auto
    moreover have "scan xs (Suc k) ccmd = Match (Suc k + n) (xs ! n)"
      using Cons.prems Suc by (intro Cons.IH) auto
    ultimately show ?thesis using Suc by auto
  qed
qed

lemma scan_cut:
  "cmdname s = [] \<Longrightarrow> scan (pre @ s # post) k ccmd = scan (pre @ [s]) k ccmd"
  by (induction pre arbitrary: k) auto

section \<open>Properties of process\<close>

lemma blank_line_calls:
  assumes "set cmdline \<subseteq> set (sep st)"
  shows "process st table cmdline =
     (st\<lparr>current := cmdline, index := 0\<rparr>, Inr [Print ''Unknown error:'', Print cmdline])"
proof -
  let ?st0 = "st\<lparr>current := cmdline, index := 0\<rparr>"
  have "first_token (sep ?st0) (unread ?st0) = []"
    using assms by (simp add: unread_start first_token_Nil)
  then have "gettoken ?st0 = (?st0, False, Inr [])"
    by (rule gettoken_blank)
  then show ?thesis by (simp add: process_def)
qed

lemma process_cases:
  obtains (blank) st1 where "process st table cmdline = (st1, Inr [Print ''Unknown error:'', Print cmdline])"
  | (failed) st1 x where "process st table cmdline = (st1, Inl x)"
  | (found) st1 ccmd i e r where "scan table 0 ccmd = Match i e"
      and "process st table cmdline = (st1, Inr [Handler (fp e) i (arg e) r])"
  | (notfound) st1 ccmd where "process st table cmdline = (st1, Inr [NotFound cmdline ccmd])"
proof -
  obtain st1 valid res where g: "gettoken (st\<lparr>current := cmdline, index := 0\<rparr>) = (st1, valid, res)"
    by (cases "gettoken (st\<lparr>current := cmdline, index := 0\<rparr>)") auto
  show thesis
  proof (cases res)
    case (Inl x)
    then show ?thesis using g failed by (simp add: process_def)
  next
    case (Inr ccmd)
    show ?thesis
    proof (cases valid)
      case False
      then show ?thesis using g Inr blank by (simp add: process_def)
    next
      case True
      show ?thesis
      proof (cases "scan table 0 ccmd")
        case (Match i e)
        show ?thesis
        proof (cases "substr cmdline (unat (index st1)) npos")
          case (Inl x)
          then show ?thesis using g Inr True Match failed by (simp add: process_def)
        next
          case r: (Inr r)
          then show ?thesis using g Inr True Match found [of ccmd i e] by (simp add: process_def)
        qed
      next
        case Exhausted
        then show ?thesis using g Inr True notfound by (simp add: process_def)
      next
        case Overrun
        then show ?thesis using g Inr True failed by (simp add: process_def)
      qed
    qed
  qed
qed

lemma handler_call:
  assumes "snd (process st table cmdline) = Inr calls" and "Handler f i a r \<in> set calls"
  shows "\<exists>ccmd e. scan table 0 ccmd = Match i e \<and> f = fp e \<and> a = arg e"
proof (cases st table cmdline rule: process_cases)
  case (found st1 ccmd j e r')
  with assms have "scan table 0 ccmd = Match i e \<and> f = fp e \<and> a = arg e" by auto
  then show ?thesis by blast
qed (use assms in auto)

lemma process_scan_cong:
  assumes "\<And>ccmd. scan t1 0 ccmd = scan t2 0 ccmd"
  shows "process st t1 cmdline = process st t2 cmdline"
proof -
  obtain st1 valid res where g: "gettoken (st\<lparr>current := cmdline, index := 0\<rparr>) = (st1, valid, res)"
    by (cases "gettoken (st\<lparr>current := cmdline, index := 0\<rparr>)") auto
  show ?thesis
  proof (cases res)
    case (Inl x)
    then show ?thesis using g by (simp add: process_def)
  next
    case (Inr ccmd)
    then show ?thesis using g assms [of ccmd] by (simp add: process_def)
  qed
qed

lemma first_token_no_sep: "set (first_token seps s) \<inter> set seps = {}"
  by (auto simp: first_token_def dest: set_takeWhileD)

lemma gettoken_valid:
  assumes "gettoken st = (st', True, r)"
  shows "first_token (sep st) (unread st) \<noteq> []"
  using assms gettoken_blank [of st] by auto

lemma notfound_call:
  assumes len: "length cmdline < 2 ^ 32"
    and calls: "snd (process st table cmdline) = Inr calls"
    and n: "NotFound l ccmd \<in> set calls"
  shows "l = cmdline \<and> ccmd = first_token (sep st) cmdline \<and> ccmd \<noteq> []"
proof (cases "first_token (sep st) cmdline = []")
  case True
  then have "set cmdline \<subseteq> set (sep st)" by (simp add: first_token_Nil)
  from blank_line_calls [OF this, of table] calls n show ?thesis by auto
next
  case False
  with len have "process st table cmdline =
     (case scan table 0 (first_token (sep st) cmdline) of
        Match i e \<Rightarrow>
          (case substr cmdline (unat (index (after_state st cmdline))) npos of
             Inl x \<Rightarrow> (after_state st cmdline, Inl x)
           | Inr r \<Rightarrow> (after_state st cmdline, Inr [Handler (fp e) i (arg e) r]))
      | Exhausted \<Rightarrow> (after_state st cmdline, Inr [NotFound cmdline (first_token (sep st) cmdline)])
      | Overrun \<Rightarrow> (after_state st cmdline, Inl table_overrun))"
    by (intro process_token) simp_all
  with calls n have "l = cmdline \<and> ccmd = first_token (sep st) cmdline"
    by (auto split: scan_result.splits sum.splits)
  with False show ?thesis by simp
qed

lemma token_decomp:
  "s = takeWhile (\<lambda>c. c \<in> set seps) s @ first_token seps s @ after_token seps s"
  by (simp add: first_token_def after_token_def skip_seps_def)

lemma after_token_hd: "after_token seps s \<noteq> [] \<Longrightarrow> hd (after_token seps s) \<in> set seps"
  using hd_dropWhile [of "\<lambda>c. c \<notin> set seps" "skip_seps seps s"]
  by (simp add: after_token_def)

lemma unread_after_state:
  assumes "length cmdline < 2 ^ 32" and "after_token (sep st) cmdline \<noteq> []"
  shows "unread (after_state st cmdline) = after_token (sep st) cmdline"
proof -
  define p where "p = length cmdline - length (after_token (sep st) cmdline)"
  have "p < 2 ^ 32" using assms by (simp add: p_def)
  then have u: "unat (of_nat p :: 32 word) = p" by (simp add: unat_of_nat)
  have d: "drop p cmdline = after_token (sep st) cmdline"
    unfolding p_def by (rule after_token_drop)
  show ?thesis using assms u d
    by (simp add: unread_def after_state_def flip: p_def)
qed

lemma process_match_rest:
  assumes "length cmdline < 2 ^ 32"
    and "i < length table"
    and "cmdname (table ! i) = first_token (sep st) cmdline"
    and "first_token (sep st) cmdline \<noteq> []"
    and "\<forall>j<i. cmdname (table ! j) \<noteq> [] \<and> cmdname (table ! j) \<noteq> first_token (sep st) cmdline"
    and "after_token (sep st) cmdline \<noteq> []"
  shows "process st table cmdline =
     (after_state st cmdline,
      Inr [Handler (fp (table ! i)) i (arg (table ! i)) (after_token (sep st) cmdline)])"
proof -
  have "scan table 0 (first_token (sep st) cmdline) = Match (0 + i) (table ! i)"
    using assms by (intro scan_first) simp_all
  then show ?thesis using assms
    by (simp add: process_token substr_rest)
qed

text \<open>
  When the command is the last thing on the line, the cursor holds \<open>2 ^ 32 - 1\<close> and
  \<^verbatim>\<open>current.substr(index)\<close> of line 138 raises.
\<close>

lemma process_match_end:
  assumes "length cmdline < 2 ^ 32 - 1"
    and "i < length table"
    and "cmdname (table ! i) = first_token (sep st) cmdline"
    and "first_token (sep st) cmdline \<noteq> []"
    and "\<forall>j<i. cmdname (table ! j) \<noteq> [] \<and> cmdname (table ! j) \<noteq> first_token (sep st) cmdline"
    and "after_token (sep st) cmdline = []"
  shows "process st table cmdline = (st\<lparr>current := cmdline, index := - 1\<rparr>, Inl out_of_range)"
proof -
  have "scan table 0 (first_token (sep st) cmdline) = Match (0 + i) (table ! i)"
    using assms by (intro scan_first) simp_all
  moreover have "after_state st cmdline = st\<lparr>current := cmdline, index := - 1\<rparr>"
    using assms by (simp add: after_state_def)
  moreover have "length cmdline < 2 ^ 32" using assms by simp
  ultimately show ?thesis using assms substr_end [of cmdline st]
    by (simp add: process_token)
qed

section \<open>Properties of the cursor\<close>

lemma getint_state: "fst (getint st) = fst (gettoken st)"
  by (simp add: getint_def split: prod.split sum.split)

lemma getuint_state: "fst (getuint st) = fst (gettoken st)"
  by (simp add: getuint_def split: prod.split sum.split)

lemma getfloat_state: "fst (getfloat stof st) = fst (gettoken st)"
  by (simp add: getfloat_def split: prod.split sum.split)

lemma after_token_length:
  "first_token seps s \<noteq> [] \<Longrightarrow> length (after_token seps s) < length s"
  using arg_cong [OF token_decomp [of s seps], of length] by simp

lemma gettoken_advances:
  assumes len: "length (current st) < 2 ^ 32"
  shows "advances st (fst (gettoken st))"
proof (cases "first_token (sep st) (unread st) = []")
  case True
  then show ?thesis by (simp add: gettoken_blank advances_def)
next
  case False
  note g = gettoken_token [OF len False]
  show ?thesis
  proof (cases "after_token (sep st) (unread st) = []")
    case True
    then show ?thesis using g by (simp add: advances_def cursor_ok_def)
  next
    case a: False
    define p where "p = length (current st) - length (after_token (sep st) (unread st))"
    have "unread st \<noteq> []" using False by (auto simp: first_token_def skip_seps_def)
    then have i: "unat (index st) < length (current st)" by (simp add: unread_def)
    have "length (after_token (sep st) (unread st)) < length (unread st)"
      using False by (rule after_token_length)
    then have ip: "unat (index st) \<le> p" using i by (simp add: p_def unread_def)
    have "p < 2 ^ 32" using len by (simp add: p_def)
    then have u: "unat (of_nat p :: 32 word) = p" by (simp add: unat_of_nat)
    have "index st \<le> of_nat p" using ip u by (simp add: word_le_nat_alt)
    moreover have "p \<le> length (current st)" by (simp add: p_def)
    ultimately show ?thesis using g a u
      by (simp add: advances_def cursor_ok_def flip: p_def)
  qed
qed

lemma process_state:
  assumes "length cmdline < 2 ^ 32"
  shows "fst (process st table cmdline) = fst (gettoken (st\<lparr>current := cmdline, index := 0\<rparr>))"
  using assms
  by (cases "first_token (sep st) cmdline = []")
    (simp_all add: blank_line_calls first_token_Nil gettoken_blank gettoken_start unread_start
      process_token split: scan_result.split sum.split)

section \<open>Properties of the integer conversions\<close>






























section \<open>Lines of more than \<open>2 ^ 32\<close> characters\<close>

lemma first_pos_append:
  "first_pos P (xs @ ys) =
     (case first_pos P xs of
        Some k \<Rightarrow> Some k
      | None \<Rightarrow> map_option (\<lambda>k. length xs + k) (first_pos P ys))"
proof (induction xs)
  case Nil
  show ?case by (cases "first_pos P ys") simp_all
next
  case (Cons x xs)
  then show ?case by (cases "first_pos P ys") (auto split: option.split)
qed

lemma first_pos_replicate:
  "first_pos P (replicate n a) = (if P a \<and> 0 < n then Some 0 else None)"
  by (induction n) auto

lemma long_word_props:
  "length long_word = 4294967296"
  "first_pos P long_word = (if P CHR ''a'' then Some 0 else None)"
  "set long_word = {CHR ''a''}"
  by (simp_all add: long_word_def first_pos_replicate)

lemma long_blank_props:
  "length long_blank = 4294967295"
  "first_pos P long_blank = (if P CHR '' '' then Some 0 else None)"
  "set long_blank = {CHR '' ''}"
  by (simp_all add: long_blank_def first_pos_replicate)

lemma takeWhile_long_word:
  assumes "P CHR ''a''"
  shows "takeWhile P (long_word @ ys) = long_word @ takeWhile P ys"
    and "dropWhile P (long_word @ ys) = dropWhile P ys"
proof -
  have a: "\<And>x. x \<in> set long_word \<Longrightarrow> P x"
    using assms by (simp add: long_word_props(3))
  show "takeWhile P (long_word @ ys) = long_word @ takeWhile P ys"
    using a by (rule takeWhile_append2)
  show "dropWhile P (long_word @ ys) = dropWhile P ys"
    using a by (rule dropWhile_append2)
qed

lemma takeWhile_long_blank:
  assumes "P CHR '' ''"
  shows "takeWhile P (long_blank @ ys) = long_blank @ takeWhile P ys"
    and "dropWhile P (long_blank @ ys) = dropWhile P ys"
proof -
  have a: "\<And>x. x \<in> set long_blank \<Longrightarrow> P x"
    using assms by (simp add: long_blank_props(3))
  show "takeWhile P (long_blank @ ys) = long_blank @ takeWhile P ys"
    using a by (rule takeWhile_append2)
  show "dropWhile P (long_blank @ ys) = dropWhile P ys"
    using a by (rule dropWhile_append2)
qed

lemma long_not_Nil: "long_word \<noteq> []" "long_blank \<noteq> []"
  using long_word_props(1) long_blank_props(1) by auto

lemma process_after_gettoken:
  assumes "gettoken (st\<lparr>current := cmdline, index := 0\<rparr>) = (st1, True, Inr ccmd)"
  shows "snd (process st table cmdline) =
     (case scan table 0 ccmd of
        Match i e \<Rightarrow>
          (case substr cmdline (unat (index st1)) npos of
             Inl x \<Rightarrow> Inl x
           | Inr r \<Rightarrow> Inr [Handler (fp e) i (arg e) r])
      | Exhausted \<Rightarrow> Inr [NotFound cmdline ccmd]
      | Overrun \<Rightarrow> Inl table_overrun)"
  using assms by (simp add: process_def split: scan_result.split sum.split)

section \<open>The statements of the specification\<close>

text \<open>
  C1: a line whose first token is the name of a row makes \<open>process\<close> call that row's
  handler once, with the row's id as first and the row's \<^verbatim>\<open>arg\<close> as second argument.
  The code passes the loop counter \<^verbatim>\<open>i\<close> instead of the id: for the table of the
  header comment and the line \<^verbatim>\<open>help\<close> followed by a newline, the handler receives
  \<open>0\<close>, and the id of the row is \<open>1\<close>.
\<close>

theorem process_passes_loop_counter:
  "process initial help_table (''help'' @ [CHR 0x0A]) =
     (\<lparr>current = ''help'' @ [CHR 0x0A], index = 4, sep = default_sep\<rparr>,
      Inr [Handler ''help'' 0 0 [CHR 0x0A]]) \<and>
   cmdid (help_table ! 0) = 1"
  by (simp add: eval_defs)

text \<open>
  C2: when the command word runs to the end of the line, \<open>process\<close> calls the handler
  with an empty remainder. The code does not: the cursor holds \<open>2 ^ 32 - 1\<close>, and
  \<^verbatim>\<open>current.substr(index)\<close> raises \<^verbatim>\<open>std::out_of_range\<close> before the handler is called.
\<close>

theorem process_throws_at_end_of_line:
  "process initial help_table ''help'' =
     (\<lparr>current = ''help'', index = - 1, sep = default_sep\<rparr>, Inl out_of_range)"
  by (simp add: eval_defs)

text \<open>
  C3, as stated: the cursor is at most the length of the line after every operation, and
  a token with no separator behind it leaves the cursor at the length of the line. It
  fails for the line \<^verbatim>\<open>help\<close>: the cursor is \<open>2 ^ 32 - 1\<close>, not \<open>4\<close>.
\<close>

theorem cursor_exceeds_length:
  "gettoken \<lparr>current = ''help'', index = 0, sep = default_sep\<rparr> =
     (\<lparr>current = ''help'', index = 4294967295, sep = default_sep\<rparr>, True, Inr ''help'') \<and>
   \<not> unat (index (fst (gettoken \<lparr>current = ''help'', index = 0, sep = default_sep\<rparr>)))
      \<le> length (current (fst (gettoken \<lparr>current = ''help'', index = 0, sep = default_sep\<rparr>))) \<and>
   index (fst (gettoken \<lparr>current = ''help'', index = 0, sep = default_sep\<rparr>)) \<noteq> 4"
  by (simp add: eval_defs)

text \<open>
  C3, amended: on a line of fewer than \<open>2 ^ 32\<close> characters, \<open>gettoken\<close>, \<open>getint\<close>,
  \<open>getuint\<close> and \<open>getfloat\<close> keep the line, never move the cursor back, and keep the
  invariant that the cursor is at most the length of the line or equal to \<open>2 ^ 32 - 1\<close>;
  a token with no separator behind it leaves the cursor at \<open>2 ^ 32 - 1\<close>. \<open>process\<close>
  installs the new line, reads its first token from cursor \<open>0\<close> and leaves the state of
  that \<open>gettoken\<close>, which has the invariant.
\<close>

theorem cursor_advances:
  assumes "length (current st) < 2 ^ 32" and "length cmdline < 2 ^ 32"
  shows "advances st (fst (gettoken st)) \<and>
     advances st (fst (getint st)) \<and>
     advances st (fst (getuint st)) \<and>
     advances st (fst (getfloat stof st)) \<and>
     (first_token (sep st) (unread st) \<noteq> [] \<and> after_token (sep st) (unread st) = [] \<longrightarrow>
        index (fst (gettoken st)) = - 1) \<and>
     fst (process st table cmdline) = fst (gettoken (st\<lparr>current := cmdline, index := 0\<rparr>)) \<and>
     current (fst (process st table cmdline)) = cmdline \<and>
     cursor_ok (fst (process st table cmdline))"
proof -
  let ?st0 = "st\<lparr>current := cmdline, index := 0\<rparr>"
  have g: "advances st (fst (gettoken st))"
    using assms(1) by (rule gettoken_advances)
  have "advances ?st0 (fst (gettoken ?st0))"
    using assms(2) by (intro gettoken_advances) simp
  moreover have "cursor_ok ?st0" by (simp add: cursor_ok_def)
  ultimately have p: "current (fst (process st table cmdline)) = cmdline"
    "cursor_ok (fst (process st table cmdline))"
    using assms(2) by (simp_all add: process_state advances_def)
  have e: "first_token (sep st) (unread st) \<noteq> [] \<and> after_token (sep st) (unread st) = [] \<longrightarrow>
        index (fst (gettoken st)) = - 1"
    using assms(1) by (simp add: gettoken_token)
  have s: "fst (process st table cmdline) = fst (gettoken ?st0)"
    using assms(2) by (rule process_state)
  show ?thesis using g p e s
    by (simp add: getint_state getuint_state getfloat_state)
qed

theorem cursor_advances_witness:
  "length (current \<lparr>current = ''list 1.2'', index = 4, sep = default_sep\<rparr>) < 2 ^ 32 \<and>
   length ''help'' < (2::nat) ^ 32 \<and>
   advances \<lparr>current = ''list 1.2'', index = 4, sep = default_sep\<rparr>
     \<lparr>current = ''list 1.2'', index = - 1, sep = default_sep\<rparr> \<and>
   first_token default_sep (unread \<lparr>current = ''list 1.2'', index = 4, sep = default_sep\<rparr>) = ''1.2'' \<and>
   after_token default_sep (unread \<lparr>current = ''list 1.2'', index = 4, sep = default_sep\<rparr>) = [] \<and>
   index (fst (gettoken \<lparr>current = ''list 1.2'', index = 4, sep = default_sep\<rparr>)) = - 1 \<and>
   fst (process \<lparr>current = ''list 1.2'', index = 4, sep = default_sep\<rparr> help_table ''help'') =
     \<lparr>current = ''help'', index = - 1, sep = default_sep\<rparr> \<and>
   cursor_ok \<lparr>current = ''help'', index = - 1, sep = default_sep\<rparr>"
proof -
  let ?st = "\<lparr>current = ''list 1.2'', index = 4, sep = default_sep\<rparr>"
  have h1: "length (current ?st) < 2 ^ 32" by simp
  have h2: "length ''help'' < (2::nat) ^ 32" by simp
  have g: "fst (gettoken ?st) = \<lparr>current = ''list 1.2'', index = - 1, sep = default_sep\<rparr>"
    by (simp add: eval_defs)
  have p: "fst (process ?st help_table ''help'') =
      \<lparr>current = ''help'', index = - 1, sep = default_sep\<rparr>"
    by (simp add: eval_defs)
  have t: "first_token default_sep (unread ?st) = ''1.2''"
    "after_token default_sep (unread ?st) = []"
    by (simp_all add: first_token_def after_token_def skip_seps_def unread_def default_sep_def)
  note r = cursor_advances [OF h1 h2, where table = help_table
      and stof = "\<lambda>s. (Inl invalid_argument :: failure + nat)"]
  have 1: "advances ?st \<lparr>current = ''list 1.2'', index = - 1, sep = default_sep\<rparr>"
    using r [THEN conjunct1] by (simp only: g)
  have 2: "cursor_ok \<lparr>current = ''help'', index = - 1, sep = default_sep\<rparr>"
    using r [THEN conjunct2, THEN conjunct2, THEN conjunct2, THEN conjunct2, THEN conjunct2,
        THEN conjunct2, THEN conjunct2]
    by (simp only: p)
  show ?thesis using h2 g p t 1 2 by simp
qed




text \<open>
  C5, as stated: for every line whose first token is not empty and is the name of no row,
  \<open>process\<close> calls \<^verbatim>\<open>notfoundfunc\<close> and no handler. It fails for the line
  \<^verbatim>\<open>help\<close> followed by \<open>2 ^ 32\<close> letters and a blank: the end of the token is stored in
  the 32-bit cursor as \<open>4\<close>, the command word is cut to \<^verbatim>\<open>help\<close>, and the handler of
  that row is called.
\<close>

theorem handler_for_longer_word:
  "first_token default_sep (''help'' @ long_word @ '' '') = ''help'' @ long_word \<and>
   ''help'' @ long_word \<noteq> [] \<and>
   ''help'' @ long_word \<notin> cmdname ` set help_table \<and>
   terminated help_table \<and>
   snd (process initial help_table (''help'' @ long_word @ '' '')) =
     Inr [Handler ''help'' 0 0 (long_word @ '' '')]"
proof (intro conjI)
  define line where "line = ''help'' @ long_word @ '' ''"
  show "first_token default_sep (''help'' @ long_word @ '' '') = ''help'' @ long_word"
    by (simp add: first_token_def skip_seps_def default_sep_def takeWhile_long_word)
  show "''help'' @ long_word \<noteq> []" by simp
  show "''help'' @ long_word \<notin> cmdname ` set help_table"
    by (simp add: help_table_def long_not_Nil)
  show "terminated help_table" by (simp add: terminated_def help_table_def)
  have "gettoken \<lparr>current = line, index = 0, sep = default_sep\<rparr> =
     (\<lparr>current = line, index = 4, sep = default_sep\<rparr>, True, Inr ''help'')"
    unfolding line_def
    by (simp add: gettoken_def find_first_not_of_def find_first_of_def substr_def npos_def
        default_sep_def first_pos_append long_word_props)
  then have g: "gettoken (initial\<lparr>current := line, index := 0\<rparr>) =
     (\<lparr>current = line, index = 4, sep = default_sep\<rparr>, True, Inr ''help'')"
    by (simp add: initial_def)
  have s: "substr line 4 npos = Inr (long_word @ '' '')"
    unfolding line_def by (simp add: substr_def npos_def long_word_props)
  have "snd (process initial help_table line) = Inr [Handler ''help'' 0 0 (long_word @ '' '')]"
    by (simp add: process_after_gettoken [OF g] s help_table_def)
  then show "snd (process initial help_table (''help'' @ long_word @ '' '')) =
     Inr [Handler ''help'' 0 0 (long_word @ '' '')]"
    by (simp only: line_def)
qed

text \<open>
  C5, amended: for every terminated table and every line of fewer than \<open>2 ^ 32\<close>
  characters whose first token is not empty and is the name of no row, \<open>process\<close> calls
  \<^verbatim>\<open>notfoundfunc\<close> with the line and the token, and calls nothing else: no handler is
  invoked.
\<close>

theorem process_not_found:
  assumes "length cmdline < 2 ^ 32"
    and "first_token (sep st) cmdline \<noteq> []"
    and "terminated table"
    and "\<forall>e\<in>set table. cmdname e \<noteq> first_token (sep st) cmdline"
  shows "process st table cmdline =
     (after_state st cmdline, Inr [NotFound cmdline (first_token (sep st) cmdline)])"
  using assms by (simp add: process_token scan_Exhausted)

theorem process_not_found_witness:
  "length ''unknown foo'' < (2::nat) ^ 32 \<and>
   first_token (sep initial) ''unknown foo'' = ''unknown'' \<and>
   terminated help_table \<and>
   process initial help_table ''unknown foo'' =
     (\<lparr>current = ''unknown foo'', index = 7, sep = default_sep\<rparr>,
      Inr [NotFound ''unknown foo'' ''unknown''])"
proof -
  have t: "first_token (sep initial) ''unknown foo'' = ''unknown''"
    by (simp add: first_token_def skip_seps_def initial_def default_sep_def)
  have a: "after_state initial ''unknown foo'' =
      \<lparr>current = ''unknown foo'', index = 7, sep = default_sep\<rparr>"
    by (simp add: after_state_def after_token_def skip_seps_def initial_def default_sep_def)
  have h: "terminated help_table"
    by (simp add: terminated_def help_table_def)
  have n: "\<forall>e\<in>set help_table. cmdname e \<noteq> first_token (sep initial) ''unknown foo''"
    by (simp add: t help_table_def)
  from process_not_found [of "''unknown foo''" initial help_table, OF _ _ h n] t a h
  show ?thesis by simp
qed

text \<open>
  C6: for every line that is empty or consists only of separator characters,
  \<open>process\<close> calls \<^verbatim>\<open>printfunc\<close> with the message \<^verbatim>\<open>Unknown error:\<close> and then with the
  line itself, and returns. The table is not read (the result is the same for every table,
  also for one without a closing row), and neither \<^verbatim>\<open>notfoundfunc\<close> nor a handler is
  called.
\<close>

theorem process_blank_line:
  assumes "set cmdline \<subseteq> set (sep st)"
  shows "process st table cmdline =
     (st\<lparr>current := cmdline, index := 0\<rparr>, Inr [Print ''Unknown error:'', Print cmdline])"
  using assms by (rule blank_line_calls)

theorem process_blank_line_witness:
  "set ''   '' \<subseteq> set (sep initial) \<and>
   process initial help_table ''   '' =
     (\<lparr>current = ''   '', index = 0, sep = default_sep\<rparr>,
      Inr [Print ''Unknown error:'', Print ''   ''])"
  using process_blank_line [of "''   ''" initial help_table]
  by (simp add: initial_def default_sep_def)

text \<open>
  C7, as stated: for every matched command whose token is followed by at least one more
  character, the handler receives the line from the first character after the token on.
  It fails for the line of \<open>2 ^ 32 - 1\<close> blanks followed by \<^verbatim>\<open>A x\<close>: the first token is
  the name \<^verbatim>\<open>A\<close> of a row and a blank follows it, but the end of the token is stored in
  the 32-bit cursor as \<open>0\<close>, the command word becomes \<^verbatim>\<open>A x\<close>, and no handler is called.
\<close>

theorem not_found_for_matching_word:
  "first_token default_sep (long_blank @ ''A x'') = ''A'' \<and>
   after_token default_sep (long_blank @ ''A x'') = '' x'' \<and>
   cmdname (value_table ! 0) = ''A'' \<and>
   snd (process initial value_table (long_blank @ ''A x'')) =
     Inr [NotFound (long_blank @ ''A x'') ''A x'']"
proof (intro conjI)
  define line where "line = long_blank @ ''A x''"
  show "first_token default_sep (long_blank @ ''A x'') = ''A''"
    by (simp add: first_token_def skip_seps_def default_sep_def takeWhile_long_blank)
  show "after_token default_sep (long_blank @ ''A x'') = '' x''"
    by (simp add: after_token_def skip_seps_def default_sep_def takeWhile_long_blank)
  show "cmdname (value_table ! 0) = ''A''" by (simp add: value_table_def)
  have "gettoken \<lparr>current = line, index = 0, sep = default_sep\<rparr> =
     (\<lparr>current = line, index = 0, sep = default_sep\<rparr>, True, Inr ''A x'')"
    unfolding line_def
    by (simp add: gettoken_def find_first_not_of_def find_first_of_def substr_def npos_def
        default_sep_def first_pos_append long_blank_props)
  then have g: "gettoken (initial\<lparr>current := line, index := 0\<rparr>) =
     (\<lparr>current = line, index = 0, sep = default_sep\<rparr>, True, Inr ''A x'')"
    by (simp add: initial_def)
  have "snd (process initial value_table line) = Inr [NotFound line ''A x'']"
    by (simp add: process_after_gettoken [OF g] value_table_def)
  then show "snd (process initial value_table (long_blank @ ''A x'')) =
     Inr [NotFound (long_blank @ ''A x'') ''A x'']"
    by (simp only: line_def)
qed

text \<open>
  C7, amended: on a line of fewer than \<open>2 ^ 32\<close> characters, when the matched command
  word is followed by at least one more character, the handler receives the line from the
  first character after the command word on. That character is a separator and is not
  skipped, and the unread part of the parser state is the same remainder. For the line
  \<^verbatim>\<open>A 3.5\<close> and a row named \<^verbatim>\<open>A\<close> the remainder is \<^verbatim>\<open> 3.5\<close> with its leading blank,
  and \<open>getfloat\<close> with \<^verbatim>\<open>std::stof\<close> in the state that \<open>process\<close> leaves reports a token
  and returns the \<^verbatim>\<open>float\<close> \<open>14680064 * 2 ^ - 22\<close>, which is \<open>3.5\<close>.
\<close>

theorem process_remainder:
  assumes "length cmdline < 2 ^ 32"
    and "i < length table"
    and "cmdname (table ! i) = first_token (sep st) cmdline"
    and "first_token (sep st) cmdline \<noteq> []"
    and "\<forall>j<i. cmdname (table ! j) \<noteq> [] \<and> cmdname (table ! j) \<noteq> first_token (sep st) cmdline"
    and "after_token (sep st) cmdline \<noteq> []"
  shows "process st table cmdline =
       (after_state st cmdline,
        Inr [Handler (fp (table ! i)) i (arg (table ! i)) (after_token (sep st) cmdline)]) \<and>
     cmdline = takeWhile (\<lambda>c. c \<in> set (sep st)) cmdline @ first_token (sep st) cmdline @
       after_token (sep st) cmdline \<and>
     hd (after_token (sep st) cmdline) \<in> set (sep st) \<and>
     unread (after_state st cmdline) = after_token (sep st) cmdline \<and>
     process initial value_table ''A 3.5'' =
       (\<lparr>current = ''A 3.5'', index = 1, sep = default_sep\<rparr>,
        Inr [Handler ''cmd_val'' 0 1 '' 3.5'']) \<and>
     getfloat std_stof \<lparr>current = ''A 3.5'', index = 1, sep = default_sep\<rparr> =
       (\<lparr>current = ''A 3.5'', index = - 1, sep = default_sep\<rparr>, True,
        Inr (Finite False 14680064 (- 22))) \<and>
     float_value (Finite False 14680064 (- 22)) = Some (7 / 2)"
proof (intro conjI)
  show "process st table cmdline =
       (after_state st cmdline,
        Inr [Handler (fp (table ! i)) i (arg (table ! i)) (after_token (sep st) cmdline)])"
    using assms by (rule process_match_rest)
  show "cmdline = takeWhile (\<lambda>c. c \<in> set (sep st)) cmdline @ first_token (sep st) cmdline @
       after_token (sep st) cmdline"
    by (rule token_decomp)
  show "hd (after_token (sep st) cmdline) \<in> set (sep st)"
    using assms(6) by (rule after_token_hd)
  show "unread (after_state st cmdline) = after_token (sep st) cmdline"
    using assms(1,6) by (rule unread_after_state)
  show "process initial value_table ''A 3.5'' =
       (\<lparr>current = ''A 3.5'', index = 1, sep = default_sep\<rparr>,
        Inr [Handler ''cmd_val'' 0 1 '' 3.5''])"
    by (simp add: eval_defs)
  have "std_stof ''3.5'' = Inr (Finite False 14680064 (- 22))"
    by (simp add: stof_eval)
  then show "getfloat std_stof \<lparr>current = ''A 3.5'', index = 1, sep = default_sep\<rparr> =
       (\<lparr>current = ''A 3.5'', index = - 1, sep = default_sep\<rparr>, True,
        Inr (Finite False 14680064 (- 22)))"
    by (simp add: getfloat_def eval_defs)
  show "float_value (Finite False 14680064 (- 22)) = Some (7 / 2)"
    by (simp add: float_value_def)
qed

theorem process_remainder_witness:
  "length ''A 3.5'' < (2::nat) ^ 32 \<and> 0 < length value_table \<and>
   cmdname (value_table ! 0) = first_token (sep initial) ''A 3.5'' \<and>
   first_token (sep initial) ''A 3.5'' = ''A'' \<and>
   after_token (sep initial) ''A 3.5'' = '' 3.5'' \<and>
   process initial value_table ''A 3.5'' =
     (\<lparr>current = ''A 3.5'', index = 1, sep = default_sep\<rparr>,
      Inr [Handler ''cmd_val'' 0 1 '' 3.5'']) \<and>
   CHR '' '' \<in> set (sep initial) \<and>
   unread \<lparr>current = ''A 3.5'', index = 1, sep = default_sep\<rparr> = '' 3.5''"
proof -
  have t: "first_token (sep initial) ''A 3.5'' = ''A''"
    by (simp add: first_token_def skip_seps_def initial_def default_sep_def)
  have a: "after_token (sep initial) ''A 3.5'' = '' 3.5''"
    by (simp add: after_token_def skip_seps_def initial_def default_sep_def)
  have "after_state initial ''A 3.5'' = initial\<lparr>current := ''A 3.5'', index := 1\<rparr>"
    by (simp add: after_state_def a)
  then have s: "after_state initial ''A 3.5'' =
      \<lparr>current = ''A 3.5'', index = 1, sep = default_sep\<rparr>"
    by (simp add: initial_def)
  have v: "value_table ! 0 =
      \<lparr>cmdid = 4, cmdname = ''A'', helptext = ''View/set valueA'', fp = ''cmd_val'', arg = 1\<rparr>"
    "0 < length value_table"
    by (simp_all add: value_table_def)
  have h1: "length ''A 3.5'' < (2::nat) ^ 32" by simp
  have h3: "cmdname (value_table ! 0) = first_token (sep initial) ''A 3.5''"
    by (simp add: t v)
  have h4: "first_token (sep initial) ''A 3.5'' \<noteq> []" by (simp add: t)
  have h5: "\<forall>j<0. cmdname (value_table ! j) \<noteq> [] \<and>
      cmdname (value_table ! j) \<noteq> first_token (sep initial) ''A 3.5''"
    by simp
  have h6: "after_token (sep initial) ''A 3.5'' \<noteq> []" by (simp add: a)
  note r = process_remainder [OF h1 v(2) h3 h4 h5 h6]
  have 1: "process initial value_table ''A 3.5'' =
     (\<lparr>current = ''A 3.5'', index = 1, sep = default_sep\<rparr>,
      Inr [Handler ''cmd_val'' 0 1 '' 3.5''])"
    using r [THEN conjunct1] by (simp add: a s v)
  have 2: "CHR '' '' \<in> set (sep initial)"
    using r [THEN conjunct2, THEN conjunct2, THEN conjunct1] by (simp add: a)
  have 3: "unread \<lparr>current = ''A 3.5'', index = 1, sep = default_sep\<rparr> = '' 3.5''"
    using r [THEN conjunct2, THEN conjunct2, THEN conjunct2, THEN conjunct1] by (simp add: a s)
  show ?thesis using h1 t a v 1 2 3 by simp
qed

text \<open>
  C8: the scan of the table stops at the first row with an empty name. What follows that
  row does not change what \<open>process\<close> does, and a handler that is called belongs to a row
  \<open>i\<close> such that no row up to and including \<open>i\<close> has an empty name: a row after the first
  empty name is never invoked, and the row with the empty name itself never matches.
\<close>

theorem scan_stops_at_empty_name:
  "(cmdname s = [] \<longrightarrow> process st (pre @ s # post) cmdline = process st (pre @ [s]) cmdline) \<and>
   (snd (process st table cmdline) = Inr calls \<and> Handler f i a r \<in> set calls \<longrightarrow>
      i < length table \<and> (\<forall>j\<le>i. cmdname (table ! j) \<noteq> []) \<and>
      f = fp (table ! i) \<and> a = arg (table ! i))"
proof (intro conjI impI)
  assume "cmdname s = []"
  then show "process st (pre @ s # post) cmdline = process st (pre @ [s]) cmdline"
    by (intro process_scan_cong scan_cut)
next
  assume "snd (process st table cmdline) = Inr calls \<and> Handler f i a r \<in> set calls"
  then have "\<exists>ccmd e. scan table 0 ccmd = Match i e \<and> f = fp e \<and> a = arg e"
    by (intro handler_call [of st table cmdline calls f i a r]) simp_all
  then obtain ccmd e where m: "scan table 0 ccmd = Match i e" and fa: "f = fp e" "a = arg e"
    by blast
  from scan_Match [OF m] fa
  show "i < length table" "\<forall>j\<le>i. cmdname (table ! j) \<noteq> []"
    "f = fp (table ! i)" "a = arg (table ! i)"
    by simp_all
qed


theorem scan_stops_at_empty_name_witness:
  "cmdname (late_table ! 1) = [] \<and>
   process initial late_table ''late x'' = process initial help_table ''late x'' \<and>
   snd (process initial late_table ''late x'') = Inr [NotFound ''late x'' ''late''] \<and>
   snd (process initial help_table ''help me'') = Inr [Handler ''help'' 0 0 '' me''] \<and>
   0 < length help_table \<and> cmdname (help_table ! 0) \<noteq> [] \<and>
   ''help'' = fp (help_table ! 0) \<and> 0 = arg (help_table ! 0)"
proof -
  have p: "snd (process initial help_table ''help me'') = Inr [Handler ''help'' 0 0 '' me'']"
    by (simp add: eval_defs)
  have q: "snd (process initial help_table ''late x'') = Inr [NotFound ''late x'' ''late'']"
    by (simp add: eval_defs)
  have l: "late_table = [help_table ! 0] @ (help_table ! 1) # [late_table ! 2]"
    "help_table = [help_table ! 0] @ [help_table ! 1]"
    by (simp_all add: late_table_def help_table_def)
  have e: "cmdname (help_table ! 1) = []" "late_table ! 1 = help_table ! 1"
    by (simp_all add: late_table_def help_table_def)
  from scan_stops_at_empty_name [where s = "help_table ! 1" and st = initial
      and pre = "[help_table ! 0]" and post = "[late_table ! 2]" and cmdline = "''late x''"
      and table = help_table and calls = "[Handler ''help'' 0 0 '' me'']"
      and f = "''help''" and i = 0 and a = 0 and r = "'' me''"]
  have "process initial late_table ''late x'' = process initial help_table ''late x''"
    using e l by simp
  moreover
  from scan_stops_at_empty_name [where s = "help_table ! 1" and st = initial
      and pre = "[help_table ! 0]" and post = "[late_table ! 2]" and cmdline = "''help me''"
      and table = help_table and calls = "[Handler ''help'' 0 0 '' me'']"
      and f = "''help''" and i = 0 and a = 0 and r = "'' me''"] p
  have "0 < length help_table \<and> cmdname (help_table ! 0) \<noteq> [] \<and>
   ''help'' = fp (help_table ! 0) \<and> 0 = arg (help_table ! 0)"
    by simp
  ultimately show ?thesis using p q e by simp
qed



text \<open>
  C10, as stated: whenever \<open>gettoken\<close> reports valid, the token is not empty. It fails
  for the line of \<open>2 ^ 32\<close> letters and a blank: the end of the token is stored in the
  32-bit cursor as \<open>0\<close>, and \<open>gettoken\<close> reports a valid token that is empty.
\<close>

theorem valid_empty_token:
  "gettoken \<lparr>current = long_word @ '' '', index = 0, sep = default_sep\<rparr> =
     (\<lparr>current = long_word @ '' '', index = 0, sep = default_sep\<rparr>, True, Inr [])"
  by (simp add: gettoken_def find_first_not_of_def find_first_of_def substr_def npos_def
      default_sep_def first_pos_append long_word_props)

text \<open>
  C10, amended: on a line of fewer than \<open>2 ^ 32\<close> characters, a token that \<open>gettoken\<close>
  reports valid is not empty and contains no separator. So on such a line the command
  word that \<open>process\<close> hands to \<^verbatim>\<open>notfoundfunc\<close> is never empty; and on every line, a row
  whose handler is called never has an empty name.
\<close>

theorem token_never_empty:
  "(length (current st) < 2 ^ 32 \<and> gettoken st = (st', True, res) \<longrightarrow>
      (\<exists>tok. res = Inr tok \<and> tok \<noteq> [] \<and> set tok \<inter> set (sep st) = {})) \<and>
   (snd (process st table cmdline) = Inr calls \<longrightarrow>
      (Handler f i a r \<in> set calls \<longrightarrow> cmdname (table ! i) \<noteq> []) \<and>
      (length cmdline < 2 ^ 32 \<and> NotFound l ccmd \<in> set calls \<longrightarrow>
         ccmd \<noteq> [] \<and> set ccmd \<inter> set (sep st) = {}))"
proof (intro conjI impI)
  assume a: "length (current st) < 2 ^ 32 \<and> gettoken st = (st', True, res)"
  then have t: "first_token (sep st) (unread st) \<noteq> []"
    using gettoken_valid by blast
  with a have "res = Inr (first_token (sep st) (unread st))"
    using gettoken_token [of st] by simp
  with t show "\<exists>tok. res = Inr tok \<and> tok \<noteq> [] \<and> set tok \<inter> set (sep st) = {}"
    using first_token_no_sep by blast
next
  assume c: "snd (process st table cmdline) = Inr calls"
    and h: "Handler f i a r \<in> set calls"
  from c h have "\<exists>ccmd e. scan table 0 ccmd = Match i e \<and> f = fp e \<and> a = arg e"
    by (rule handler_call)
  then obtain c e where "scan table 0 c = Match i e" by blast
  from scan_Match [OF this] show "cmdname (table ! i) \<noteq> []" by simp
next
  assume c: "snd (process st table cmdline) = Inr calls"
    and n: "length cmdline < 2 ^ 32 \<and> NotFound l ccmd \<in> set calls"
  then have "ccmd = first_token (sep st) cmdline \<and> ccmd \<noteq> []"
    by (intro conjunct2 [OF notfound_call [of cmdline st table calls l ccmd]]) simp_all
  then show "ccmd \<noteq> []" and "set ccmd \<inter> set (sep st) = {}"
    by (auto simp: first_token_no_sep)
qed

theorem token_never_empty_witness:
  "length (current \<lparr>current = ''list 1.2'', index = 4, sep = default_sep\<rparr>) < 2 ^ 32 \<and>
   gettoken \<lparr>current = ''list 1.2'', index = 4, sep = default_sep\<rparr> =
     (\<lparr>current = ''list 1.2'', index = - 1, sep = default_sep\<rparr>, True, Inr ''1.2'') \<and>
   ''1.2'' \<noteq> [] \<and> set ''1.2'' \<inter> set default_sep = {} \<and>
   snd (process initial help_table ''help me'') = Inr [Handler ''help'' 0 0 '' me''] \<and>
   cmdname (help_table ! 0) \<noteq> [] \<and>
   snd (process initial help_table ''unknown foo'') = Inr [NotFound ''unknown foo'' ''unknown''] \<and>
   ''unknown'' \<noteq> [] \<and> set ''unknown'' \<inter> set (sep initial) = {}"
proof -
  let ?st = "\<lparr>current = ''list 1.2'', index = 4, sep = default_sep\<rparr>"
  let ?st' = "\<lparr>current = ''list 1.2'', index = - 1, sep = default_sep\<rparr>"
  have g: "gettoken ?st = (?st', True, Inr ''1.2'')"
    by (simp add: eval_defs)
  have p: "snd (process initial help_table ''help me'') = Inr [Handler ''help'' 0 0 '' me'']"
    by (simp add: eval_defs)
  have q: "snd (process initial help_table ''unknown foo'') = Inr [NotFound ''unknown foo'' ''unknown'']"
    by (simp add: eval_defs)
  from token_never_empty [where st = ?st and st' = ?st' and res = "Inr ''1.2''"
      and cmdline = "''help me''" and table = help_table
      and calls = "[Handler ''help'' 0 0 '' me'']" and f = "''help''" and i = 0 and a = 0
      and r = "'' me''"] g
  have 1: "''1.2'' \<noteq> [] \<and> set ''1.2'' \<inter> set default_sep = {}"
    by simp
  from token_never_empty [where st = initial and cmdline = "''help me''" and table = help_table
      and calls = "[Handler ''help'' 0 0 '' me'']" and f = "''help''" and i = 0 and a = 0
      and r = "'' me''"] p
  have 2: "cmdname (help_table ! 0) \<noteq> []"
    by simp
  from token_never_empty [where st = initial and cmdline = "''unknown foo''" and table = help_table
      and calls = "[NotFound ''unknown foo'' ''unknown'']" and l = "''unknown foo''"
      and ccmd = "''unknown''"] q
  have 3: "''unknown'' \<noteq> [] \<and> set ''unknown'' \<inter> set (sep initial) = {}"
    by simp
  from g p q 1 2 3 show ?thesis by simp
qed

end
